theory Spec2Isabelle
  imports Main "HOL-Library.Word"
begin

section \<open>Data model of the scheduler core (pa2.c)\<close>

text \<open>
  A \<^verbatim>\<open>struct process *\<close> is a handle into a store of process records; the queues hold
  handles. The fields read and written by pa2.c are \<^verbatim>\<open>status\<close>, \<^verbatim>\<open>age\<close>,
  \<^verbatim>\<open>lifespan\<close>, \<^verbatim>\<open>prio\<close> and \<^verbatim>\<open>prio_orig\<close>.

  Modelled from the spec: process.h is not among the sources. The status values are
  the three the data model names (READY, RUNNING, BLOCKED); the numeric fields are
  taken as C \<^verbatim>\<open>unsigned int\<close>, a 32-bit word, so that \<^verbatim>\<open>lifespan - age\<close> wraps as
  the C expression does.
\<close>

type_synonym pid = nat
type_synonym uint = "32 word"

datatype process_status = PROCESS_READY | PROCESS_RUNNING | PROCESS_BLOCKED

record process =
  status :: process_status
  age :: uint
  lifespan :: uint
  prio :: uint
  prio_orig :: uint

text \<open>
  Modelled from the spec: resource.h is not among the sources. A resource has an owner
  (a process or none) and a wait queue; \<^verbatim>\<open>resources\<close> is a table of fixed size
  indexed by resource id.
\<close>

record resource =
  owner :: "pid option"
  waitqueue :: "pid list"

text \<open>
  The globals of pa2.c: \<^verbatim>\<open>current\<close>, \<^verbatim>\<open>readyqueue\<close>, \<^verbatim>\<open>resources\<close>, and the
  process records reachable through the pointers.
\<close>

record sched =
  current :: "pid option"
  readyqueue :: "pid list"
  resources :: "resource list"
  procs :: "pid \<Rightarrow> process"

text \<open>
  A call either returns a value with the state it leaves, or stops at a fault with the
  state it had reached: a failed \<^verbatim>\<open>assert\<close>, the dereference of a NULL process
  pointer, or a resource id outside the table.
\<close>

datatype fault = AssertFailed | NullDeref | BadResource

type_synonym 'a result = "(fault \<times> sched) + ('a \<times> sched)"

subsection \<open>Field updates\<close>

definition set_status :: "pid \<Rightarrow> process_status \<Rightarrow> sched \<Rightarrow> sched" where
  "set_status p st s = s\<lparr>procs := (procs s)(p := (procs s p)\<lparr>status := st\<rparr>)\<rparr>"

definition set_prio :: "pid \<Rightarrow> uint \<Rightarrow> sched \<Rightarrow> sched" where
  "set_prio p v s = s\<lparr>procs := (procs s)(p := (procs s p)\<lparr>prio := v\<rparr>)\<rparr>"

definition set_owner :: "nat \<Rightarrow> pid option \<Rightarrow> sched \<Rightarrow> sched" where
  "set_owner rid ow s =
     s\<lparr>resources := (resources s)[rid := (resources s ! rid)\<lparr>owner := ow\<rparr>]\<rparr>"

subsection \<open>The ordered collection\<close>

text \<open>
  Modelled from the spec: list_head.h is not among the sources. The spec takes the
  container as an abstract ordered collection with append-to-tail, remove-by-identity,
  peek-first, empty-check and forward iteration. A queue is the list of the handles
  linked into it, head first.

  \<^verbatim>\<open>list_add_tail(&p->list, &q)\<close> appends \<open>p\<close> to the queue \<open>q\<close>; it does not look
  at where \<open>p\<close> is linked already. \<^verbatim>\<open>list_del_init(&p->list)\<close> names no queue: it
  unlinks \<open>p\<close> from wherever it is linked, and does nothing to a process that is in no
  queue.

  A process has one link field. The lists below describe the queues of the code as long
  as every process is in at most one queue, at most once (\<open>exclusive\<close> below): then
  the appended process was in no queue, and the unlinked one was in one place. Once a
  process that is still linked has been appended, the lists record that it belongs to both
  queues and follow the code no further.
\<close>

definition add_ready :: "pid \<Rightarrow> sched \<Rightarrow> sched" where
  "add_ready p s = s\<lparr>readyqueue := readyqueue s @ [p]\<rparr>"

definition add_wait :: "nat \<Rightarrow> pid \<Rightarrow> sched \<Rightarrow> sched" where
  "add_wait rid p s =
     s\<lparr>resources :=
         (resources s)[rid := (resources s ! rid)\<lparr>waitqueue := waitqueue (resources s ! rid) @ [p]\<rparr>]\<rparr>"

definition list_del_init :: "pid \<Rightarrow> sched \<Rightarrow> sched" where
  "list_del_init p s =
     s\<lparr>readyqueue := removeAll p (readyqueue s),
       resources := map (\<lambda>r. r\<lparr>waitqueue := removeAll p (waitqueue r)\<rparr>) (resources s)\<rparr>"

text \<open>
  The selection loop shared by the policies,
  \<^verbatim>\<open>list_for_each_entry(p, q, list) { if (!next) next = p; else if (C(p, next)) next = p; }\<close>,
  with the comparison \<open>C\<close> of each call site passed as \<open>better\<close>.
\<close>

fun pick :: "(pid \<Rightarrow> pid \<Rightarrow> bool) \<Rightarrow> pid option \<Rightarrow> pid list \<Rightarrow> pid option" where
  "pick better nxt [] = nxt"
| "pick better nxt (p # ps) =
     pick better
       (case nxt of None \<Rightarrow> Some p
        | Some n \<Rightarrow> if better p n then Some p else Some n) ps"

section \<open>FCFS acquire and release\<close>

definition fcfs_acquire :: "nat \<Rightarrow> sched \<Rightarrow> bool result" where
  "fcfs_acquire rid s =
     (if length (resources s) \<le> rid then Inl (BadResource, s)
      else case owner (resources s ! rid) of
        None \<Rightarrow> Inr (True, set_owner rid (current s) s)
      | Some ow \<Rightarrow>
          (case current s of
             None \<Rightarrow> Inl (NullDeref, s)
           | Some c \<Rightarrow> Inr (False, add_wait rid c (set_status c PROCESS_BLOCKED s))))"

text \<open>
  The tail of every release: the chosen waiter must be BLOCKED (an \<^verbatim>\<open>assert\<close>), is
  unlinked, set READY and appended to the ready queue. A NULL waiter is dereferenced by
  the assertion.
\<close>

definition wake :: "pid option \<Rightarrow> sched \<Rightarrow> unit result" where
  "wake waiter s =
     (case waiter of
        None \<Rightarrow> Inl (NullDeref, s)
      | Some w \<Rightarrow>
          if status (procs s w) \<noteq> PROCESS_BLOCKED then Inl (AssertFailed, s)
          else Inr ((), add_ready w (set_status w PROCESS_READY (list_del_init w s))))"

definition fcfs_release :: "nat \<Rightarrow> sched \<Rightarrow> unit result" where
  "fcfs_release rid s =
     (if length (resources s) \<le> rid then Inl (BadResource, s)
      else if owner (resources s ! rid) \<noteq> current s then Inl (AssertFailed, s)
      else let s1 = set_owner rid None s in
        (case waitqueue (resources s1 ! rid) of
           [] \<Rightarrow> Inr ((), s1)
         | w # ws \<Rightarrow> wake (Some w) s1))"

section \<open>FCFS, SJF, STCF and round-robin schedule\<close>

text \<open>
  \<^verbatim>\<open>list_del_init(&next->list); return next;\<close> dereferences \<open>next\<close>.
\<close>

definition take_next :: "pid option \<Rightarrow> sched \<Rightarrow> (pid option) result" where
  "take_next nxt s =
     (case nxt of
        None \<Rightarrow> Inl (NullDeref, s)
      | Some n \<Rightarrow> Inr (Some n, list_del_init n s))"

text \<open>
  The else branch of the schedulers that test the ready queue first:
  \<^verbatim>\<open>if (current->age < current->lifespan) return current;\<close> and then
  \<^verbatim>\<open>return next;\<close> with \<open>next\<close> still NULL.
\<close>

definition continue_current :: "sched \<Rightarrow> (pid option) result" where
  "continue_current s =
     (case current s of
        None \<Rightarrow> Inl (NullDeref, s)
      | Some c \<Rightarrow>
          if age (procs s c) < lifespan (procs s c) then Inr (Some c, s)
          else Inr (None, s))"



definition sjf_better :: "sched \<Rightarrow> pid \<Rightarrow> pid \<Rightarrow> bool" where
  "sjf_better s p n = (lifespan (procs s p) < lifespan (procs s n))"

definition sjf_pick_next :: "sched \<Rightarrow> (pid option) result" where
  "sjf_pick_next s =
     (if readyqueue s \<noteq> [] then take_next (pick (sjf_better s) None (readyqueue s)) s
      else Inr (None, s))"

definition sjf_schedule :: "sched \<Rightarrow> (pid option) result" where
  "sjf_schedule s =
     (case current s of
        None \<Rightarrow> sjf_pick_next s
      | Some c \<Rightarrow>
          if status (procs s c) = PROCESS_BLOCKED then sjf_pick_next s
          else if age (procs s c) < lifespan (procs s c) then Inr (Some c, s)
          else sjf_pick_next s)"

definition remaining :: "sched \<Rightarrow> pid \<Rightarrow> uint" where
  "remaining s p = lifespan (procs s p) - age (procs s p)"

definition stcf_better :: "sched \<Rightarrow> pid \<Rightarrow> pid \<Rightarrow> bool" where
  "stcf_better s p n = (remaining s p < remaining s n)"

definition stcf_schedule :: "sched \<Rightarrow> (pid option) result" where
  "stcf_schedule s =
     (if readyqueue s \<noteq> [] then
        (let nxt = pick (stcf_better s) None (readyqueue s) in
         case current s of
           None \<Rightarrow> take_next nxt s
         | Some c \<Rightarrow>
             if lifespan (procs s c) \<noteq> age (procs s c) then
               (case nxt of
                  None \<Rightarrow> Inl (NullDeref, s)
                | Some n \<Rightarrow>
                    if remaining s c < remaining s n then take_next (Some c) s
                    else take_next nxt (add_ready c s))
             else take_next nxt s)
      else continue_current s)"

definition rr_schedule :: "sched \<Rightarrow> (pid option) result" where
  "rr_schedule s =
     (case readyqueue s of
        n # ns \<Rightarrow>
          (let s1 = list_del_init n s in
           case current s of
             None \<Rightarrow> Inr (Some n, s1)
           | Some c \<Rightarrow>
               if lifespan (procs s c) \<noteq> age (procs s c) then Inr (Some n, add_ready c s1)
               else Inr (Some n, s1))
      | [] \<Rightarrow> continue_current s)"

section \<open>Priority\<close>

definition prio_acquire :: "nat \<Rightarrow> sched \<Rightarrow> bool result" where
  "prio_acquire rid s =
     (if length (resources s) \<le> rid then Inl (BadResource, s)
      else case owner (resources s ! rid) of
        None \<Rightarrow> Inr (True, set_owner rid (current s) s)
      | Some ow \<Rightarrow>
          (case current s of
             None \<Rightarrow> Inl (NullDeref, s)
           | Some c \<Rightarrow>
               Inr (False, set_status c PROCESS_BLOCKED (add_wait rid c (list_del_init c s)))))"

definition prio_better :: "sched \<Rightarrow> pid \<Rightarrow> pid \<Rightarrow> bool" where
  "prio_better s p n = (prio (procs s n) < prio (procs s p))"

definition prio_release :: "nat \<Rightarrow> sched \<Rightarrow> unit result" where
  "prio_release rid s =
     (if length (resources s) \<le> rid then Inl (BadResource, s)
      else if owner (resources s ! rid) \<noteq> current s then Inl (AssertFailed, s)
      else let s1 = set_owner rid None s in
        if waitqueue (resources s1 ! rid) \<noteq> [] then
          wake (pick (prio_better s1) None (waitqueue (resources s1 ! rid))) s1
        else Inr ((), s1))"

definition prio_ready_better :: "sched \<Rightarrow> pid \<Rightarrow> pid \<Rightarrow> bool" where
  "prio_ready_better s p n =
     (prio (procs s n) < prio (procs s p) \<and> status (procs s p) = PROCESS_READY)"

definition prio_schedule :: "sched \<Rightarrow> (pid option) result" where
  "prio_schedule s =
     (if readyqueue s \<noteq> [] then
        (let nxt = pick (prio_ready_better s) None (readyqueue s) in
         case current s of
           None \<Rightarrow> take_next nxt s
         | Some c \<Rightarrow>
             if age (procs s c) = lifespan (procs s c) then take_next nxt s
             else if status (procs s c) \<noteq> PROCESS_BLOCKED then
               (case nxt of
                  None \<Rightarrow> Inl (NullDeref, s)
                | Some n \<Rightarrow>
                    if prio (procs s n) < prio (procs s c) then Inr (Some c, s)
                    else if age (procs s c) \<noteq> lifespan (procs s c)
                      then take_next nxt (add_ready c s)
                    else take_next nxt s)
             else take_next nxt s)
      else continue_current s)"

section \<open>Priority with aging\<close>

text \<open>\<^verbatim>\<open>MAX_PRIO\<close> comes from a header that is not among the sources; the two functions
  that use it take it as the parameter \<open>mx\<close>.\<close>

definition pa_acquire :: "nat \<Rightarrow> sched \<Rightarrow> bool result" where
  "pa_acquire rid s =
     (if length (resources s) \<le> rid then Inl (BadResource, s)
      else case owner (resources s ! rid) of
        None \<Rightarrow> Inr (True, set_owner rid (current s) s)
      | Some ow \<Rightarrow>
          (case current s of
             None \<Rightarrow> Inl (NullDeref, s)
           | Some c \<Rightarrow>
               if prio (procs s c) < prio (procs s ow) then
                 Inr (False, add_wait rid c (set_status c PROCESS_BLOCKED s))
               else
                 Inr (True, set_owner rid (Some c)
                              (add_wait rid ow (set_status ow PROCESS_BLOCKED s)))))"

text \<open>The loop of \<^verbatim>\<open>pa_release\<close> runs over \<^verbatim>\<open>readyqueue\<close>.\<close>

definition pa_release :: "nat \<Rightarrow> sched \<Rightarrow> unit result" where
  "pa_release rid s =
     (if length (resources s) \<le> rid then Inl (BadResource, s)
      else if owner (resources s ! rid) \<noteq> current s then Inl (AssertFailed, s)
      else let s1 = set_owner rid None s in
        if waitqueue (resources s1 ! rid) \<noteq> [] then
          wake (pick (prio_better s1) None (readyqueue s1)) s1
        else Inr ((), s1))"

text \<open>
  The first loop of \<^verbatim>\<open>pa_schedule\<close> writes while it selects: each entry is aged
  (\<^verbatim>\<open>if (p->prio < MAX_PRIO) p->prio++\<close>) and then compared with the entry held so far.
\<close>

fun pa_age_pick :: "uint \<Rightarrow> pid list \<Rightarrow> sched \<Rightarrow> pid option \<Rightarrow> sched \<times> pid option" where
  "pa_age_pick mx [] s nxt = (s, nxt)"
| "pa_age_pick mx (p # ps) s nxt =
     (let s1 = (if prio (procs s p) < mx then set_prio p (prio (procs s p) + 1) s else s)
      in pa_age_pick mx ps s1
           (case nxt of None \<Rightarrow> Some p
            | Some n \<Rightarrow> if prio (procs s1 n) < prio (procs s1 p) then Some p else Some n))"

definition pa_pick_next :: "sched \<Rightarrow> (pid option) result" where
  "pa_pick_next s =
     (if readyqueue s \<noteq> [] then take_next (pick (prio_better s) None (readyqueue s)) s
      else Inr (None, s))"

definition pa_schedule :: "uint \<Rightarrow> sched \<Rightarrow> (pid option) result" where
  "pa_schedule mx s =
     (case current s of
        None \<Rightarrow> pa_pick_next s
      | Some c \<Rightarrow>
          if status (procs s c) = PROCESS_BLOCKED then pa_pick_next s
          else if readyqueue s \<noteq> [] then
            (let s1 = set_prio c (prio_orig (procs s c)) s;
                 (s2, nxt) = pa_age_pick mx (readyqueue s1) s1 None
             in if age (procs s2 c) < lifespan (procs s2 c) then
                  (case nxt of
                     None \<Rightarrow> Inl (NullDeref, s2)
                   | Some n \<Rightarrow>
                       if prio (procs s2 n) < prio (procs s2 c) then Inr (Some c, s2)
                       else take_next nxt (add_ready c s2))
                else take_next nxt s2)
          else if age (procs s c) < lifespan (procs s c) then Inr (Some c, s)
          else Inr (None, s))"

section \<open>Priority with the priority ceiling protocol\<close>

definition pcp_acquire :: "uint \<Rightarrow> nat \<Rightarrow> sched \<Rightarrow> bool result" where
  "pcp_acquire mx rid s =
     (if length (resources s) \<le> rid then Inl (BadResource, s)
      else case owner (resources s ! rid) of
        None \<Rightarrow>
          (let s1 = set_owner rid (current s) s in
           case owner (resources s1 ! rid) of
             None \<Rightarrow> Inl (NullDeref, s1)
           | Some ow \<Rightarrow> Inr (True, set_prio ow mx s1))
      | Some ow \<Rightarrow>
          (case current s of
             None \<Rightarrow> Inl (NullDeref, s)
           | Some c \<Rightarrow>
               Inr (False, add_wait rid c (set_status c PROCESS_BLOCKED (list_del_init c s)))))"

text \<open>\<^verbatim>\<open>pcp_release\<close> writes the owner's priority before its assertion.\<close>

definition pcp_release :: "nat \<Rightarrow> sched \<Rightarrow> unit result" where
  "pcp_release rid s =
     (if length (resources s) \<le> rid then Inl (BadResource, s)
      else case owner (resources s ! rid) of
        None \<Rightarrow> Inl (NullDeref, s)
      | Some ow \<Rightarrow>
          (let s0 = set_prio ow (prio_orig (procs s ow)) s in
           if owner (resources s0 ! rid) \<noteq> current s0 then Inl (AssertFailed, s0)
           else let s1 = set_owner rid None s0 in
             if waitqueue (resources s1 ! rid) \<noteq> [] then
               wake (pick (prio_better s1) None (waitqueue (resources s1 ! rid))) s1
             else Inr ((), s1)))"

definition pcp_schedule :: "sched \<Rightarrow> (pid option) result" where
  "pcp_schedule s =
     (if readyqueue s \<noteq> [] then
        (let nxt = pick (prio_better s) None (readyqueue s) in
         case current s of
           None \<Rightarrow> take_next nxt s
         | Some c \<Rightarrow>
             if age (procs s c) < lifespan (procs s c) then
               (case nxt of
                  None \<Rightarrow> Inl (NullDeref, s)
                | Some n \<Rightarrow>
                    if prio (procs s c) \<le> prio (procs s n) then
                      (if status (procs s c) \<noteq> PROCESS_BLOCKED
                         then take_next nxt (add_ready c s)
                       else take_next nxt s)
                    else Inr (Some c, s))
             else take_next nxt s)
      else continue_current s)"

section \<open>Priority with the priority inheritance protocol\<close>

definition pip_acquire :: "nat \<Rightarrow> sched \<Rightarrow> bool result" where
  "pip_acquire rid s =
     (if length (resources s) \<le> rid then Inl (BadResource, s)
      else case owner (resources s ! rid) of
        None \<Rightarrow> Inr (True, set_owner rid (current s) s)
      | Some ow \<Rightarrow>
          (case current s of
             None \<Rightarrow> Inl (NullDeref, s)
           | Some c \<Rightarrow>
               (let s1 = (if prio (procs s ow) < prio (procs s c)
                            then set_prio ow (prio (procs s c)) s else s)
                in Inr (False,
                     add_wait rid c (set_status c PROCESS_BLOCKED (list_del_init c s1))))))"

definition pip_release :: "nat \<Rightarrow> sched \<Rightarrow> unit result" where
  "pip_release rid s =
     (if length (resources s) \<le> rid then Inl (BadResource, s)
      else if owner (resources s ! rid) \<noteq> current s then Inl (AssertFailed, s)
      else case owner (resources s ! rid) of
        None \<Rightarrow> Inl (NullDeref, s)
      | Some ow \<Rightarrow>
          (let s0 = set_prio ow (prio_orig (procs s ow)) s;
               s1 = set_owner rid None s0
           in if waitqueue (resources s1 ! rid) \<noteq> [] then
                wake (pick (prio_better s1) None (waitqueue (resources s1 ! rid))) s1
              else Inr ((), s1)))"

definition pip_schedule :: "sched \<Rightarrow> (pid option) result" where
  "pip_schedule s =
     (if readyqueue s \<noteq> [] then
        (let nxt = pick (prio_better s) None (readyqueue s) in
         case current s of
           None \<Rightarrow> take_next nxt s
         | Some c \<Rightarrow>
             if age (procs s c) < lifespan (procs s c) then
               (case nxt of
                  None \<Rightarrow> Inl (NullDeref, s)
                | Some n \<Rightarrow>
                    if prio (procs s c) \<le> prio (procs s n) then
                      (if status (procs s c) \<noteq> PROCESS_BLOCKED
                         then take_next nxt (add_ready c s)
                       else take_next nxt s)
                    else if status (procs s c) = PROCESS_BLOCKED then take_next nxt s
                    else Inr (Some c, s))
             else take_next nxt s)
      else continue_current s)"

section \<open>The scheduler table\<close>

text \<open>
  \<^verbatim>\<open>struct scheduler\<close> with the function pointers pa2.c fills in. Modelled from the spec:
  sched.h is not among the sources; \<^verbatim>\<open>initialize\<close> and \<^verbatim>\<open>finalize\<close> do nothing
  and are left out.
\<close>

record scheduler =
  acquire :: "nat \<Rightarrow> sched \<Rightarrow> bool result"
  release :: "nat \<Rightarrow> sched \<Rightarrow> unit result"
  schedule :: "sched \<Rightarrow> (pid option) result"


definition sjf_scheduler :: scheduler where
  "sjf_scheduler = \<lparr>acquire = fcfs_acquire, release = fcfs_release, schedule = sjf_schedule\<rparr>"

definition stcf_scheduler :: scheduler where
  "stcf_scheduler = \<lparr>acquire = fcfs_acquire, release = fcfs_release, schedule = stcf_schedule\<rparr>"

definition rr_scheduler :: scheduler where
  "rr_scheduler = \<lparr>acquire = fcfs_acquire, release = fcfs_release, schedule = rr_schedule\<rparr>"

definition prio_scheduler :: scheduler where
  "prio_scheduler = \<lparr>acquire = prio_acquire, release = prio_release, schedule = prio_schedule\<rparr>"

definition pa_scheduler :: "uint \<Rightarrow> scheduler" where
  "pa_scheduler mx = \<lparr>acquire = pa_acquire, release = pa_release, schedule = pa_schedule mx\<rparr>"

definition pcp_scheduler :: "uint \<Rightarrow> scheduler" where
  "pcp_scheduler mx = \<lparr>acquire = pcp_acquire mx, release = pcp_release, schedule = pcp_schedule\<rparr>"

definition pip_scheduler :: scheduler where
  "pip_scheduler = \<lparr>acquire = pip_acquire, release = pip_release, schedule = pip_schedule\<rparr>"

section \<open>Properties of states\<close>

text \<open>Every queue entry of the state, ready queue first.\<close>

definition queued :: "sched \<Rightarrow> pid list" where
  "queued s = readyqueue s @ concat (map waitqueue (resources s))"

text \<open>A process is linked into at most one queue, and at most once.\<close>

definition exclusive :: "sched \<Rightarrow> bool" where
  "exclusive s = distinct (queued s)"

text \<open>A handle is fresh when no pointer of the state refers to it.\<close>

definition fresh :: "pid \<Rightarrow> sched \<Rightarrow> bool" where
  "fresh p s =
     (current s \<noteq> Some p \<and> p \<notin> set (queued s) \<and> Some p \<notin> set (map owner (resources s)))"

text \<open>A schedule call either stops at the NULL \<^verbatim>\<open>current\<close>, which it does exactly when
  there is neither a ready process nor a current one, or returns.\<close>

definition faults_iff_idle :: "(sched \<Rightarrow> (pid option) result) \<Rightarrow> sched \<Rightarrow> bool" where
  "faults_iff_idle f s =
     (if readyqueue s = [] \<and> current s = None then f s = Inl (NullDeref, s)
      else \<exists>r s'. f s = Inr (r, s'))"

section \<open>The driver\<close>

text \<open>
  Modelled from the spec: the tick loop and process creation are not among the sources.
  The driver contract below follows the spec's control flow, data model and lifecycle:
  \<^item> the driver creates processes; a new process has an identity of its own, is READY,
    has age 0, a lifespan of at least one tick and its baseline priority, and waits in
    the ready queue;
  \<^item> each tick it calls \<^verbatim>\<open>schedule\<close>; the returned process becomes \<^verbatim>\<open>current\<close> and is
    the process to run this tick;
  \<^item> the age of the process to run advances by one, once per tick;
  \<^item> \<^verbatim>\<open>acquire\<close> and \<^verbatim>\<open>release\<close> are called for requests of the current
    process; when \<^verbatim>\<open>acquire\<close> returns false the process has blocked and does not run
    before the next \<^verbatim>\<open>schedule\<close>.
  A fault of the policy code ends the run, and so does a breach of the contract: a process
  created with no tick to run or under a handle in use, or a tick executed without a
  process that \<^verbatim>\<open>schedule\<close> returned for it.
\<close>

datatype event = Fork pid uint uint | Schedule | Acquire nat | Run | Release nat

datatype phase = Idle | Dispatched | Ran

datatype stop = Fault fault | Breach

fun drive :: "scheduler \<Rightarrow> event \<Rightarrow> phase \<times> sched \<Rightarrow> (stop \<times> sched) + (phase \<times> sched)" where
  "drive pol (Fork p l pr) (ph, s) =
     (if l = 0 \<or> \<not> fresh p s then Inl (Breach, s)
      else Inr (ph, add_ready p
        (s\<lparr>procs := (procs s)(p :=
             \<lparr>status = PROCESS_READY, age = 0, lifespan = l, prio = pr, prio_orig = pr\<rparr>)\<rparr>)))"
| "drive pol Schedule (ph, s) =
     (case schedule pol s of
        Inl (f, s') \<Rightarrow> Inl (Fault f, s')
      | Inr (r, s') \<Rightarrow> Inr (if r = None then Idle else Dispatched, s'\<lparr>current := r\<rparr>))"
| "drive pol (Acquire rid) (ph, s) =
     (case acquire pol rid s of
        Inl (f, s') \<Rightarrow> Inl (Fault f, s')
      | Inr (b, s') \<Rightarrow> Inr (if b then ph else Idle, s'))"
| "drive pol Run (ph, s) =
     (case current s of
        None \<Rightarrow> Inl (Breach, s)
      | Some c \<Rightarrow>
          if ph \<noteq> Dispatched then Inl (Breach, s)
          else Inr (Ran, s\<lparr>procs := (procs s)(c := (procs s c)\<lparr>age := age (procs s c) + 1\<rparr>)\<rparr>))"
| "drive pol (Release rid) (ph, s) =
     (case release pol rid s of
        Inl (f, s') \<Rightarrow> Inl (Fault f, s')
      | Inr (u, s') \<Rightarrow> Inr (ph, s'))"

fun drive_all ::
  "scheduler \<Rightarrow> event list \<Rightarrow> phase \<times> sched \<Rightarrow> (stop \<times> sched) + (phase \<times> sched)" where
  "drive_all pol [] x = Inr x"
| "drive_all pol (e # es) x =
     (case drive pol e x of Inl y \<Rightarrow> Inl y | Inr x' \<Rightarrow> drive_all pol es x')"

text \<open>The state before the first tick: no current process, empty queues, \<open>n\<close> free
  resources.\<close>

definition unused :: process where
  "unused = \<lparr>status = PROCESS_READY, age = 0, lifespan = 0, prio = 0, prio_orig = 0\<rparr>"

definition boot :: "nat \<Rightarrow> sched" where
  "boot n = \<lparr>current = None, readyqueue = [],
     resources = replicate n \<lparr>owner = None, waitqueue = []\<rparr>, procs = (\<lambda>p. unused)\<rparr>"

section \<open>Aging the whole ready queue\<close>

text \<open>
  What the spec says the first loop of \<^verbatim>\<open>pa_schedule\<close> does to priorities: every
  process in the ready queue gains 1, capped at the maximum priority. The loop itself is
  \<open>pa_age_pick\<close>; the two are compared below.
\<close>

definition aged :: "uint \<Rightarrow> process \<Rightarrow> process" where
  "aged mx pr = (if prio pr < mx then pr\<lparr>prio := prio pr + 1\<rparr> else pr)"

definition age_queue :: "uint \<Rightarrow> pid list \<Rightarrow> sched \<Rightarrow> sched" where
  "age_queue mx ps s =
     s\<lparr>procs := (\<lambda>p. if p \<in> set ps then aged mx (procs s p) else procs s p)\<rparr>"

section \<open>Scenarios\<close>

text \<open>States of one-resource runs, each reached from \<open>boot 1\<close> by the events given with
  the theorem that uses it, or written down directly where it only instantiates a
  theorem.\<close>

text \<open>STCF: process 1 has run two of its five ticks, process 2 needs three.\<close>

definition stcf_tie_input :: sched where
  "stcf_tie_input = \<lparr>current = Some 1, readyqueue = [2],
     resources = [\<lparr>owner = None, waitqueue = []\<rparr>],
     procs = (\<lambda>p. unused)
       (1 := \<lparr>status = PROCESS_READY, age = 2, lifespan = 5, prio = 0, prio_orig = 0\<rparr>,
        2 := \<lparr>status = PROCESS_READY, age = 0, lifespan = 3, prio = 0, prio_orig = 0\<rparr>)\<rparr>"

text \<open>STCF: the same with one more tick run by process 1.\<close>

definition stcf_win_input :: sched where
  "stcf_win_input = \<lparr>current = Some 1, readyqueue = [2],
     resources = [\<lparr>owner = None, waitqueue = []\<rparr>],
     procs = (\<lambda>p. unused)
       (1 := \<lparr>status = PROCESS_READY, age = 3, lifespan = 5, prio = 0, prio_orig = 0\<rparr>,
        2 := \<lparr>status = PROCESS_READY, age = 0, lifespan = 3, prio = 0, prio_orig = 0\<rparr>)\<rparr>"

text \<open>Priority with aging: process 1 was aged from 3 to 4 while it waited, runs, and the
  ready queue is empty.\<close>

definition pa_idle_input :: sched where
  "pa_idle_input = \<lparr>current = Some 1, readyqueue = [],
     resources = [\<lparr>owner = None, waitqueue = []\<rparr>],
     procs = (\<lambda>p. unused)
       (1 := \<lparr>status = PROCESS_READY, age = 1, lifespan = 3, prio = 4, prio_orig = 3\<rparr>,
        2 := \<lparr>status = PROCESS_READY, age = 1, lifespan = 1, prio = 9, prio_orig = 9\<rparr>)\<rparr>"

text \<open>Priority with aging: process 1 runs with an aged priority; processes 2 and 3 wait,
  process 3 already at the maximum 64.\<close>

definition pa_aging_input :: sched where
  "pa_aging_input = \<lparr>current = Some 1, readyqueue = [2, 3],
     resources = [\<lparr>owner = None, waitqueue = []\<rparr>],
     procs = (\<lambda>p. unused)
       (1 := \<lparr>status = PROCESS_READY, age = 1, lifespan = 3, prio = 7, prio_orig = 3\<rparr>,
        2 := \<lparr>status = PROCESS_READY, age = 0, lifespan = 3, prio = 2, prio_orig = 2\<rparr>,
        3 := \<lparr>status = PROCESS_READY, age = 0, lifespan = 3, prio = 64, prio_orig = 60\<rparr>)\<rparr>"

text \<open>Priority with aging: process 1 took resource 0 and was preempted by process 2,
  which is about to ask for resource 0.\<close>

definition pa_evict_input :: sched where
  "pa_evict_input = \<lparr>current = Some 2, readyqueue = [1],
     resources = [\<lparr>owner = Some 1, waitqueue = []\<rparr>],
     procs = (\<lambda>p. unused)
       (1 := \<lparr>status = PROCESS_READY, age = 1, lifespan = 3, prio = 1, prio_orig = 1\<rparr>,
        2 := \<lparr>status = PROCESS_READY, age = 0, lifespan = 3, prio = 10, prio_orig = 9\<rparr>)\<rparr>"

text \<open>Priority with aging: process 1 owns resource 0 and is the one waiter in its wait
  queue, having asked for it a second time; process 3 waits in the ready queue.\<close>

definition pa_release_input :: sched where
  "pa_release_input = \<lparr>current = Some 1, readyqueue = [3],
     resources = [\<lparr>owner = Some 1, waitqueue = [1]\<rparr>],
     procs = (\<lambda>p. unused)
       (1 := \<lparr>status = PROCESS_BLOCKED, age = 0, lifespan = 3, prio = 1, prio_orig = 1\<rparr>,
        3 := \<lparr>status = PROCESS_READY, age = 0, lifespan = 3, prio = 2, prio_orig = 2\<rparr>)\<rparr>"

text \<open>FCFS acquire: process 1 holds resource 0 and waits in the ready queue; process 2
  asked for resource 0 in its first tick and blocked.\<close>

definition blocked_input :: sched where
  "blocked_input = \<lparr>current = Some 2, readyqueue = [1],
     resources = [\<lparr>owner = Some 1, waitqueue = [2]\<rparr>],
     procs = (\<lambda>p. unused)
       (1 := \<lparr>status = PROCESS_READY, age = 1, lifespan = 5, prio = 0, prio_orig = 0\<rparr>,
        2 := \<lparr>status = PROCESS_BLOCKED, age = 0, lifespan = 2, prio = 0, prio_orig = 0\<rparr>)\<rparr>"

text \<open>PCP: process 1 holds resource 0 at the ceiling 64 and waits in the ready queue;
  process 2 runs.\<close>

definition pcp_release_input :: sched where
  "pcp_release_input = \<lparr>current = Some 2, readyqueue = [1],
     resources = [\<lparr>owner = Some 1, waitqueue = []\<rparr>],
     procs = (\<lambda>p. unused)
       (1 := \<lparr>status = PROCESS_READY, age = 1, lifespan = 3, prio = 64, prio_orig = 1\<rparr>,
        2 := \<lparr>status = PROCESS_READY, age = 0, lifespan = 3, prio = 64, prio_orig = 64\<rparr>)\<rparr>"

text \<open>PCP: process 1 runs and resource 0 is free.\<close>

definition pcp_free_input :: sched where
  "pcp_free_input = \<lparr>current = Some 1, readyqueue = [],
     resources = [\<lparr>owner = None, waitqueue = []\<rparr>],
     procs = (\<lambda>p. unused)
       (1 := \<lparr>status = PROCESS_READY, age = 0, lifespan = 3, prio = 1, prio_orig = 1\<rparr>)\<rparr>"

text \<open>PCP: process 1 runs and holds resource 0; processes 2 and 3 wait for it.\<close>

definition pcp_owned_input :: sched where
  "pcp_owned_input = \<lparr>current = Some 1, readyqueue = [],
     resources = [\<lparr>owner = Some 1, waitqueue = [2, 3]\<rparr>],
     procs = (\<lambda>p. unused)
       (1 := \<lparr>status = PROCESS_READY, age = 2, lifespan = 3, prio = 64, prio_orig = 1\<rparr>,
        2 := \<lparr>status = PROCESS_BLOCKED, age = 0, lifespan = 3, prio = 5, prio_orig = 5\<rparr>,
        3 := \<lparr>status = PROCESS_BLOCKED, age = 0, lifespan = 3, prio = 7, prio_orig = 7\<rparr>)\<rparr>"

text \<open>PIP: process 1 (priority 1) holds resource 0 and waits in the ready queue;
  process 2 (priority 5) runs.\<close>

definition pip_held_input :: sched where
  "pip_held_input = \<lparr>current = Some 2, readyqueue = [1],
     resources = [\<lparr>owner = Some 1, waitqueue = []\<rparr>],
     procs = (\<lambda>p. unused)
       (1 := \<lparr>status = PROCESS_READY, age = 1, lifespan = 3, prio = 1, prio_orig = 1\<rparr>,
        2 := \<lparr>status = PROCESS_READY, age = 0, lifespan = 3, prio = 5, prio_orig = 5\<rparr>)\<rparr>"



section \<open>Field accesses through the updates\<close>

lemma set_status_fields:
  "current (set_status p st s) = current s"
  "readyqueue (set_status p st s) = readyqueue s"
  "resources (set_status p st s) = resources s"
  "procs (set_status p st s) = (procs s)(p := (procs s p)\<lparr>status := st\<rparr>)"
  by (simp_all add: set_status_def)

lemma set_prio_fields:
  "current (set_prio p v s) = current s"
  "readyqueue (set_prio p v s) = readyqueue s"
  "resources (set_prio p v s) = resources s"
  "procs (set_prio p v s) = (procs s)(p := (procs s p)\<lparr>prio := v\<rparr>)"
  by (simp_all add: set_prio_def)

lemma set_owner_fields:
  "current (set_owner rid ow s) = current s"
  "readyqueue (set_owner rid ow s) = readyqueue s"
  "resources (set_owner rid ow s) = (resources s)[rid := (resources s ! rid)\<lparr>owner := ow\<rparr>]"
  "procs (set_owner rid ow s) = procs s"
  by (simp_all add: set_owner_def)

lemma add_ready_fields:
  "current (add_ready p s) = current s"
  "readyqueue (add_ready p s) = readyqueue s @ [p]"
  "resources (add_ready p s) = resources s"
  "procs (add_ready p s) = procs s"
  by (simp_all add: add_ready_def)

lemma add_wait_fields:
  "current (add_wait rid p s) = current s"
  "readyqueue (add_wait rid p s) = readyqueue s"
  "resources (add_wait rid p s) =
     (resources s)[rid := (resources s ! rid)\<lparr>waitqueue := waitqueue (resources s ! rid) @ [p]\<rparr>]"
  "procs (add_wait rid p s) = procs s"
  by (simp_all add: add_wait_def)

lemma list_del_init_fields:
  "current (list_del_init p s) = current s"
  "readyqueue (list_del_init p s) = removeAll p (readyqueue s)"
  "resources (list_del_init p s) =
     map (\<lambda>r. r\<lparr>waitqueue := removeAll p (waitqueue r)\<rparr>) (resources s)"
  "procs (list_del_init p s) = procs s"
  by (simp_all add: list_del_init_def)

lemmas fields =
  set_status_fields set_prio_fields set_owner_fields add_ready_fields add_wait_fields
  list_del_init_fields

section \<open>The selection loop\<close>

lemma pick_Some: "xs \<noteq> [] \<or> nxt \<noteq> None \<Longrightarrow> \<exists>n. pick better nxt xs = Some n"
  by (induction xs arbitrary: nxt) (auto split: option.splits)

lemma pick_nonempty: "xs \<noteq> [] \<Longrightarrow> \<exists>n. pick better None xs = Some n"
  by (simp add: pick_Some)

lemma pick_snoc:
  "pick R nxt (xs @ [x]) =
     (case pick R nxt xs of None \<Rightarrow> Some x | Some n \<Rightarrow> if R x n then Some x else Some n)"
  by (induction xs arbitrary: nxt) simp_all

text \<open>
  For a comparison that is a strict weak order, the loop returns the first entry that no
  entry beats: it beats every entry before it.
\<close>

lemma pick_first_best:
  assumes irr: "\<And>a. \<not> R a a"
    and cmp: "\<And>a b c. R a b \<Longrightarrow> \<not> R c b \<Longrightarrow> R a c"
    and asym: "\<And>a b. R a b \<Longrightarrow> \<not> R b a"
  shows "xs \<noteq> [] \<Longrightarrow>
    \<exists>i<length xs. pick R None xs = Some (xs ! i) \<and>
       (\<forall>j<length xs. \<not> R (xs ! j) (xs ! i)) \<and> (\<forall>j<i. R (xs ! i) (xs ! j))"
proof (induction xs rule: rev_induct)
  case Nil
  then show ?case by simp
next
  case (snoc x xs)
  show ?case
  proof (cases "xs = []")
    case True
    then show ?thesis using irr by simp
  next
    case False
    then obtain i where i: "i < length xs" "pick R None xs = Some (xs ! i)"
      "\<forall>j<length xs. \<not> R (xs ! j) (xs ! i)" "\<forall>j<i. R (xs ! i) (xs ! j)"
      using snoc.IH by blast
    show ?thesis
    proof (cases "R x (xs ! i)")
      case True
      have a: "\<forall>j<length xs. R x (xs ! j)"
        using True i(3) cmp by blast
      have "pick R None (xs @ [x]) = Some ((xs @ [x]) ! length xs)"
        using True i(2) by (simp add: pick_snoc)
      moreover have "\<forall>j<length (xs @ [x]). \<not> R ((xs @ [x]) ! j) ((xs @ [x]) ! length xs)"
        using a asym irr by (auto simp: nth_append less_Suc_eq)
      moreover have "\<forall>j<length xs. R ((xs @ [x]) ! length xs) ((xs @ [x]) ! j)"
        using a by (simp add: nth_append)
      ultimately show ?thesis
        by (intro exI [of _ "length xs"]) simp
    next
      case False
      have "pick R None (xs @ [x]) = Some ((xs @ [x]) ! i)"
        using False i(1,2) by (simp add: pick_snoc nth_append)
      moreover have "\<forall>j<length (xs @ [x]). \<not> R ((xs @ [x]) ! j) ((xs @ [x]) ! i)"
        using False i(1,3) by (auto simp: nth_append less_Suc_eq)
      moreover have "\<forall>j<i. R ((xs @ [x]) ! i) ((xs @ [x]) ! j)"
        using i(1,4) by (simp add: nth_append)
      ultimately show ?thesis
        using i(1) by (intro exI [of _ i]) simp
    qed
  qed
qed

lemma pick_prio_max:
  assumes "xs \<noteq> []"
  shows "\<exists>i<length xs. pick (prio_better s) None xs = Some (xs ! i) \<and>
       (\<forall>j<length xs. prio (procs s (xs ! j)) \<le> prio (procs s (xs ! i))) \<and>
       (\<forall>j<i. prio (procs s (xs ! j)) < prio (procs s (xs ! i)))"
proof -
  have "\<exists>i<length xs. pick (prio_better s) None xs = Some (xs ! i) \<and>
       (\<forall>j<length xs. \<not> prio_better s (xs ! j) (xs ! i)) \<and>
       (\<forall>j<i. prio_better s (xs ! i) (xs ! j))"
    by (rule pick_first_best) (use assms in \<open>auto simp: prio_better_def\<close>)
  then show ?thesis
    by (simp add: prio_better_def not_less)
qed

lemma pick_stcf_min:
  assumes "xs \<noteq> []"
  shows "\<exists>i<length xs. pick (stcf_better s) None xs = Some (xs ! i) \<and>
       (\<forall>j<length xs. remaining s (xs ! i) \<le> remaining s (xs ! j)) \<and>
       (\<forall>j<i. remaining s (xs ! i) < remaining s (xs ! j))"
proof -
  have "\<exists>i<length xs. pick (stcf_better s) None xs = Some (xs ! i) \<and>
       (\<forall>j<length xs. \<not> stcf_better s (xs ! j) (xs ! i)) \<and>
       (\<forall>j<i. stcf_better s (xs ! i) (xs ! j))"
    by (rule pick_first_best) (use assms in \<open>auto simp: stcf_better_def\<close>)
  then show ?thesis
    by (simp add: stcf_better_def not_less)
qed

section \<open>Schedule with no current process and no ready process\<close>

lemma rr_faults_iff_idle: "faults_iff_idle rr_schedule s"
  by (cases "readyqueue s"; cases "current s")
     (auto simp: faults_iff_idle_def rr_schedule_def continue_current_def Let_def)

lemma prio_faults_iff_idle: "faults_iff_idle prio_schedule s"
proof (cases "readyqueue s = []")
  case True
  then show ?thesis
    by (cases "current s") (auto simp: faults_iff_idle_def prio_schedule_def continue_current_def)
next
  case False
  then obtain n where "pick (prio_ready_better s) None (readyqueue s) = Some n"
    using pick_nonempty by blast
  with False show ?thesis
    by (cases "current s") (auto simp: faults_iff_idle_def prio_schedule_def take_next_def Let_def)
qed

lemma pcp_faults_iff_idle: "faults_iff_idle pcp_schedule s"
proof (cases "readyqueue s = []")
  case True
  then show ?thesis
    by (cases "current s") (auto simp: faults_iff_idle_def pcp_schedule_def continue_current_def)
next
  case False
  then obtain n where "pick (prio_better s) None (readyqueue s) = Some n"
    using pick_nonempty by blast
  with False show ?thesis
    by (cases "current s") (auto simp: faults_iff_idle_def pcp_schedule_def take_next_def Let_def)
qed

lemma pip_faults_iff_idle: "faults_iff_idle pip_schedule s"
proof (cases "readyqueue s = []")
  case True
  then show ?thesis
    by (cases "current s") (auto simp: faults_iff_idle_def pip_schedule_def continue_current_def)
next
  case False
  then obtain n where "pick (prio_better s) None (readyqueue s) = Some n"
    using pick_nonempty by blast
  with False show ?thesis
    by (cases "current s") (auto simp: faults_iff_idle_def pip_schedule_def take_next_def Let_def)
qed

text \<open>
  C9. The schedule functions of round-robin, Priority, PCP and PIP read
  \<^verbatim>\<open>current->age\<close> without a NULL test when the ready queue is empty. Each of them
  stops at the NULL dereference, leaving the state as it was, when it is called with an
  empty ready queue and no current process, and returns a result in every other state:
  the call is safe exactly under the precondition that a current process exists whenever
  the ready queue is empty.
\<close>

theorem schedule_needs_current:
  "faults_iff_idle rr_schedule s \<and> faults_iff_idle prio_schedule s \<and>
   faults_iff_idle pcp_schedule s \<and> faults_iff_idle pip_schedule s"
  by (simp add: rr_faults_iff_idle prio_faults_iff_idle pcp_faults_iff_idle pip_faults_iff_idle)

theorem schedule_needs_current_witness:
  "rr_schedule (boot 1) = Inl (NullDeref, boot 1) \<and>
   prio_schedule (boot 1) = Inl (NullDeref, boot 1) \<and>
   pcp_schedule (boot 1) = Inl (NullDeref, boot 1) \<and>
   pip_schedule (boot 1) = Inl (NullDeref, boot 1) \<and>
   (\<exists>r s'. rr_schedule ((boot 1)\<lparr>readyqueue := [1]\<rparr>) = Inr (r, s')) \<and>
   (\<exists>r s'. prio_schedule ((boot 1)\<lparr>readyqueue := [1]\<rparr>) = Inr (r, s')) \<and>
   (\<exists>r s'. pcp_schedule ((boot 1)\<lparr>readyqueue := [1]\<rparr>) = Inr (r, s')) \<and>
   (\<exists>r s'. pip_schedule ((boot 1)\<lparr>readyqueue := [1]\<rparr>) = Inr (r, s'))"
  using schedule_needs_current [of "boot 1"]
    schedule_needs_current [of "(boot 1)\<lparr>readyqueue := [1]\<rparr>"]
  by (simp add: faults_iff_idle_def boot_def)

section \<open>Evaluating scenarios\<close>

lemmas eval_defs =
  boot_def unused_def fields Let_def take_next_def continue_current_def
  fresh_def queued_def

section \<open>PIP acquire\<close>

text \<open>
  C7. PIP acquire on a held resource, called with a current process: the owner's
  priority becomes the requester's exactly when the requester's is strictly greater and
  is unchanged otherwise, no other priority changes, the requester's status becomes
  BLOCKED, it is unlinked from wherever it was and appended to the tail of the resource's
  wait queue, the owner stays, and the call returns false.
\<close>

theorem pip_acquire_held:
  assumes rid: "rid < length (resources s)"
    and held: "owner (resources s ! rid) = Some ow"
    and cur: "current s = Some c"
  shows "\<exists>s'. pip_acquire rid s = Inr (False, s') \<and>
      prio (procs s' ow) =
        (if prio (procs s ow) < prio (procs s c) then prio (procs s c) else prio (procs s ow)) \<and>
      (\<forall>p. p \<noteq> ow \<longrightarrow> prio (procs s' p) = prio (procs s p)) \<and>
      status (procs s' c) = PROCESS_BLOCKED \<and>
      (\<forall>p. p \<noteq> c \<longrightarrow> status (procs s' p) = status (procs s p)) \<and>
      waitqueue (resources s' ! rid) = removeAll c (waitqueue (resources s ! rid)) @ [c] \<and>
      (c \<notin> set (waitqueue (resources s ! rid)) \<longrightarrow>
         waitqueue (resources s' ! rid) = waitqueue (resources s ! rid) @ [c]) \<and>
      owner (resources s' ! rid) = Some ow \<and>
      current s' = Some c"
  using assms by (simp add: pip_acquire_def Let_def fields)

theorem pip_acquire_held_witness:
  "\<exists>s'. pip_acquire 0 pip_held_input = Inr (False, s') \<and>
      prio (procs pip_held_input 1) = 1 \<and> prio (procs pip_held_input 2) = 5 \<and>
      prio (procs s' 1) = 5 \<and> prio (procs s' 2) = 5 \<and>
      status (procs s' 2) = PROCESS_BLOCKED \<and> status (procs s' 1) = PROCESS_READY \<and>
      waitqueue (resources s' ! 0) = [2] \<and> owner (resources s' ! 0) = Some 1"
  using pip_acquire_held [of 0 pip_held_input 1 2]
  by (auto simp: pip_held_input_def)

section \<open>PCP acquire and release\<close>

lemma map_waitqueue_set_owner:
  "map waitqueue (resources (set_owner rid ow s)) = map waitqueue (resources s)"
proof (cases "rid < length (resources s)")
  case True
  then have "(map waitqueue (resources s))[rid := waitqueue (resources s ! rid)] =
      map waitqueue (resources s)"
    by (metis list_update_id nth_map)
  then show ?thesis by (simp add: set_owner_fields map_update)
next
  case False
  then show ?thesis by (simp add: set_owner_fields list_update_beyond)
qed

lemma pcp_acquire_free:
  assumes rid: "rid < length (resources s)" and cur: "current s = Some c"
    and free: "owner (resources s ! rid) = None"
  shows "\<exists>s'. pcp_acquire mx rid s = Inr (True, s') \<and>
         owner (resources s' ! rid) = Some c \<and> prio (procs s' c) = mx \<and>
         (\<forall>p. p \<noteq> c \<longrightarrow> procs s' p = procs s p) \<and>
         readyqueue s' = readyqueue s \<and>
         map waitqueue (resources s') = map waitqueue (resources s)"
  using assms
  using map_waitqueue_set_owner [of rid "Some c" s]
  by (simp add: pcp_acquire_def Let_def set_prio_fields set_owner_fields)

lemma pcp_release_owner:
  assumes rid: "rid < length (resources s)" and cur: "current s = Some c"
    and own: "owner (resources s ! rid) = Some c"
    and wq: "waitqueue (resources s ! rid) = wq"
    and blocked: "\<forall>p\<in>set wq. status (procs s p) = PROCESS_BLOCKED"
  shows "\<exists>s'. pcp_release rid s = Inr ((), s') \<and>
         prio (procs s' c) = prio_orig (procs s c) \<and>
         (\<forall>p. p \<noteq> c \<longrightarrow> prio (procs s' p) = prio (procs s p)) \<and>
         owner (resources s' ! rid) = None \<and>
         (wq = [] \<longrightarrow>
            readyqueue s' = readyqueue s \<and> waitqueue (resources s' ! rid) = [] \<and>
            (\<forall>p. status (procs s' p) = status (procs s p))) \<and>
         (wq \<noteq> [] \<longrightarrow>
            (\<exists>i<length wq.
               (\<forall>j<length wq. prio (procs s' (wq ! j)) \<le> prio (procs s' (wq ! i))) \<and>
               (\<forall>j<i. prio (procs s' (wq ! j)) < prio (procs s' (wq ! i))) \<and>
               waitqueue (resources s' ! rid) = removeAll (wq ! i) wq \<and>
               status (procs s' (wq ! i)) = PROCESS_READY \<and>
               (\<forall>p. p \<noteq> wq ! i \<longrightarrow> status (procs s' p) = status (procs s p)) \<and>
               readyqueue s' = removeAll (wq ! i) (readyqueue s) @ [wq ! i]))"
proof -
  define s0 where "s0 = set_prio c (prio_orig (procs s c)) s"
  define s1 where "s1 = set_owner rid None s0"
  have len1: "rid < length (resources s1)"
    using rid by (simp add: s1_def s0_def fields)
  have wq1: "waitqueue (resources s1 ! rid) = wq"
    using rid wq by (simp add: s1_def s0_def fields)
  have own1: "owner (resources s1 ! rid) = None"
    using rid by (simp add: s1_def s0_def fields)
  have rq1: "readyqueue s1 = readyqueue s"
    by (simp add: s1_def s0_def fields)
  have procs1: "procs s1 = (procs s)(c := (procs s c)\<lparr>prio := prio_orig (procs s c)\<rparr>)"
    by (simp add: s1_def s0_def fields)
  have rel: "pcp_release rid s =
      (if wq \<noteq> [] then wake (pick (prio_better s1) None wq) s1 else Inr ((), s1))"
    using rid cur own wq1
    by (simp add: pcp_release_def Let_def s1_def s0_def set_prio_fields)
  show ?thesis
  proof (cases "wq = []")
    case True
    then show ?thesis
      using rel wq1 own1 rq1 by (simp add: procs1)
  next
    case False
    then obtain i where i: "i < length wq" "pick (prio_better s1) None wq = Some (wq ! i)"
      "\<forall>j<length wq. prio (procs s1 (wq ! j)) \<le> prio (procs s1 (wq ! i))"
      "\<forall>j<i. prio (procs s1 (wq ! j)) < prio (procs s1 (wq ! i))"
      using pick_prio_max [of wq s1] by blast
    define w where "w = wq ! i"
    have "w \<in> set wq" using i(1) by (simp add: w_def)
    then have bl: "status (procs s1 w) = PROCESS_BLOCKED"
      using blocked by (auto simp: procs1)
    define s' where "s' = add_ready w (set_status w PROCESS_READY (list_del_init w s1))"
    have res: "pcp_release rid s = Inr ((), s')"
      using rel False i(2) bl by (simp add: wake_def w_def [symmetric] s'_def)
    have prio': "\<And>p. prio (procs s' p) = prio (procs s1 p)"
      by (simp add: s'_def fields)
    have a: "prio (procs s' c) = prio_orig (procs s c)"
      by (simp add: prio' procs1)
    have b: "\<forall>p. p \<noteq> c \<longrightarrow> prio (procs s' p) = prio (procs s p)"
      by (simp add: prio' procs1)
    have st1: "status (procs s' w) = PROCESS_READY"
      by (simp add: s'_def fields)
    have st2: "\<forall>p. p \<noteq> w \<longrightarrow> status (procs s' p) = status (procs s p)"
      by (simp add: s'_def fields procs1)
    have wq': "waitqueue (resources s' ! rid) = removeAll w wq"
      using len1 wq1 by (simp add: s'_def fields)
    have own': "owner (resources s' ! rid) = None"
      using len1 own1 by (simp add: s'_def fields)
    have rq': "readyqueue s' = removeAll w (readyqueue s) @ [w]"
      by (simp add: s'_def fields rq1)
    have mx: "\<forall>j<length wq. prio (procs s' (wq ! j)) \<le> prio (procs s' w)"
      using i(3) by (simp add: prio' w_def)
    have first: "\<forall>j<i. prio (procs s' (wq ! j)) < prio (procs s' w)"
      using i(4) by (simp add: prio' w_def)
    have "\<exists>i<length wq.
               (\<forall>j<length wq. prio (procs s' (wq ! j)) \<le> prio (procs s' (wq ! i))) \<and>
               (\<forall>j<i. prio (procs s' (wq ! j)) < prio (procs s' (wq ! i))) \<and>
               waitqueue (resources s' ! rid) = removeAll (wq ! i) wq \<and>
               status (procs s' (wq ! i)) = PROCESS_READY \<and>
               (\<forall>p. p \<noteq> wq ! i \<longrightarrow> status (procs s' p) = status (procs s p)) \<and>
               readyqueue s' = removeAll (wq ! i) (readyqueue s) @ [wq ! i]"
      using i(1) mx first wq' st1 st2 rq' unfolding w_def by blast
    with res a b own' False show ?thesis by blast
  qed
qed

text \<open>
  C6. PCP, called with a current process \<open>c\<close>. Acquire on a free resource returns true,
  makes \<open>c\<close> the owner and sets its priority to the maximum priority; nothing else
  changes. Release by the owner, with every waiter BLOCKED, sets the owner's priority to
  its original one, clears the ownership, and when the wait queue is not empty takes the
  first waiter of maximal priority out of the wait queue, sets it READY and appends it to
  the ready queue; with an empty wait queue no queue and no status changes.
\<close>

theorem pcp_acquire_release:
  assumes rid: "rid < length (resources s)" and cur: "current s = Some c"
    and wq: "waitqueue (resources s ! rid) = wq"
  shows
   "(owner (resources s ! rid) = None \<longrightarrow>
      (\<exists>s'. pcp_acquire mx rid s = Inr (True, s') \<and>
         owner (resources s' ! rid) = Some c \<and> prio (procs s' c) = mx \<and>
         (\<forall>p. p \<noteq> c \<longrightarrow> procs s' p = procs s p) \<and>
         readyqueue s' = readyqueue s \<and>
         map waitqueue (resources s') = map waitqueue (resources s))) \<and>
    (owner (resources s ! rid) = Some c \<and>
     (\<forall>p\<in>set wq. status (procs s p) = PROCESS_BLOCKED) \<longrightarrow>
      (\<exists>s'. pcp_release rid s = Inr ((), s') \<and>
         prio (procs s' c) = prio_orig (procs s c) \<and>
         (\<forall>p. p \<noteq> c \<longrightarrow> prio (procs s' p) = prio (procs s p)) \<and>
         owner (resources s' ! rid) = None \<and>
         (wq = [] \<longrightarrow>
            readyqueue s' = readyqueue s \<and> waitqueue (resources s' ! rid) = [] \<and>
            (\<forall>p. status (procs s' p) = status (procs s p))) \<and>
         (wq \<noteq> [] \<longrightarrow>
            (\<exists>i<length wq.
               (\<forall>j<length wq. prio (procs s' (wq ! j)) \<le> prio (procs s' (wq ! i))) \<and>
               (\<forall>j<i. prio (procs s' (wq ! j)) < prio (procs s' (wq ! i))) \<and>
               waitqueue (resources s' ! rid) = removeAll (wq ! i) wq \<and>
               status (procs s' (wq ! i)) = PROCESS_READY \<and>
               (\<forall>p. p \<noteq> wq ! i \<longrightarrow> status (procs s' p) = status (procs s p)) \<and>
               readyqueue s' = removeAll (wq ! i) (readyqueue s) @ [wq ! i]))))"
  using pcp_acquire_free [OF rid cur, of mx] pcp_release_owner [OF rid cur _ wq]
  by blast

theorem pcp_acquire_release_witness:
  "(\<exists>s'. pcp_acquire 64 0 pcp_free_input = Inr (True, s') \<and>
      owner (resources s' ! 0) = Some 1 \<and> prio (procs s' 1) = 64) \<and>
   (\<exists>s'. pcp_release 0 pcp_owned_input = Inr ((), s') \<and>
      prio (procs s' 1) = 1 \<and> owner (resources s' ! 0) = None \<and>
      waitqueue (resources s' ! 0) = [2] \<and> status (procs s' 3) = PROCESS_READY \<and>
      readyqueue s' = [3])"
proof -
  have a: "\<exists>s'. pcp_acquire 64 0 pcp_free_input = Inr (True, s') \<and>
      owner (resources s' ! 0) = Some 1 \<and> prio (procs s' 1) = 64"
    using pcp_acquire_release [of 0 pcp_free_input 1 "[]" 64]
    by (auto simp: pcp_free_input_def)
  have "0 < length (resources pcp_owned_input)" "current pcp_owned_input = Some 1"
      "waitqueue (resources pcp_owned_input ! 0) = [2, 3]"
      "owner (resources pcp_owned_input ! 0) = Some 1"
      "\<forall>p\<in>set [2, 3]. status (procs pcp_owned_input p) = PROCESS_BLOCKED"
    by (simp_all add: pcp_owned_input_def)
  then obtain s' i where s': "pcp_release 0 pcp_owned_input = Inr ((), s')"
      "prio (procs s' 1) = prio_orig (procs pcp_owned_input 1)"
      "owner (resources s' ! 0) = None" "i < length [2, 3::nat]"
      "\<forall>j<length [2, 3::nat]. prio (procs s' ([2, 3] ! j)) \<le> prio (procs s' ([2, 3] ! i))"
      "waitqueue (resources s' ! 0) = removeAll ([2, 3] ! i) [2, 3]"
      "status (procs s' ([2, 3] ! i)) = PROCESS_READY"
      "readyqueue s' = removeAll ([2, 3] ! i) (readyqueue pcp_owned_input) @ [[2, 3] ! i]"
      "\<forall>p. p \<noteq> 1 \<longrightarrow> prio (procs s' p) = prio (procs pcp_owned_input p)"
    using pcp_acquire_release [of 0 pcp_owned_input 1 "[2, 3]" 64] by auto
  have "i = 1"
  proof (rule ccontr)
    assume "i \<noteq> 1"
    then have "i = 0" using s'(4) by simp
    then have "prio (procs s' ([2, 3] ! 1)) \<le> prio (procs s' ([2, 3] ! 0))"
      using s'(5) [rule_format, of 1] by simp
    then have "prio (procs s' 3) \<le> prio (procs s' 2)" by simp
    then show False using s'(9) by (simp add: pcp_owned_input_def)
  qed
  then have "\<exists>s'. pcp_release 0 pcp_owned_input = Inr ((), s') \<and>
      prio (procs s' 1) = 1 \<and> owner (resources s' ! 0) = None \<and>
      waitqueue (resources s' ! 0) = [2] \<and> status (procs s' 3) = PROCESS_READY \<and>
      readyqueue s' = [3]"
    using s' by (simp add: pcp_owned_input_def)
  with a show ?thesis by blast
qed

section \<open>STCF: the incumbent and the best ready process\<close>

lemma stcf_schedule_unfold:
  assumes cur: "current s = Some c" and unfinished: "lifespan (procs s c) \<noteq> age (procs s c)"
    and rq: "readyqueue s \<noteq> []"
    and n: "pick (stcf_better s) None (readyqueue s) = Some n"
  shows "stcf_schedule s =
     (if remaining s c < remaining s n then Inr (Some c, list_del_init c s)
      else Inr (Some n, list_del_init n (add_ready c s)))"
  using assms by (simp add: stcf_schedule_def Let_def take_next_def)

text \<open>
  C2, as the code has it. STCF schedule with an unfinished current process \<open>c\<close> and a
  ready queue that is not empty. When the remaining time of \<open>c\<close> is strictly less than
  that of every ready process, \<open>c\<close> is returned and the ready queue is left as it is
  (\<open>c\<close> itself is unlinked, which changes nothing when it is in no queue). When some
  ready process has a remaining time less than or equal to that of \<open>c\<close>, a tie
  included, \<open>c\<close> is appended to the ready queue and the first ready process of minimal
  remaining time is unlinked and returned.
\<close>

theorem stcf_incumbent_strict:
  assumes cur: "current s = Some c" and unfinished: "lifespan (procs s c) \<noteq> age (procs s c)"
    and rq: "readyqueue s \<noteq> []"
  shows "((\<forall>p\<in>set (readyqueue s). remaining s c < remaining s p) \<longrightarrow>
           stcf_schedule s = Inr (Some c, list_del_init c s) \<and>
           (c \<notin> set (readyqueue s) \<longrightarrow> readyqueue (list_del_init c s) = readyqueue s)) \<and>
         ((\<exists>p\<in>set (readyqueue s). remaining s p \<le> remaining s c) \<longrightarrow>
           (\<exists>i<length (readyqueue s).
              (\<forall>j<length (readyqueue s).
                 remaining s (readyqueue s ! i) \<le> remaining s (readyqueue s ! j)) \<and>
              (\<forall>j<i. remaining s (readyqueue s ! i) < remaining s (readyqueue s ! j)) \<and>
              stcf_schedule s =
                Inr (Some (readyqueue s ! i),
                     list_del_init (readyqueue s ! i) (add_ready c s))))"
proof -
  obtain i where i: "i < length (readyqueue s)"
      "pick (stcf_better s) None (readyqueue s) = Some (readyqueue s ! i)"
      "\<forall>j<length (readyqueue s).
         remaining s (readyqueue s ! i) \<le> remaining s (readyqueue s ! j)"
      "\<forall>j<i. remaining s (readyqueue s ! i) < remaining s (readyqueue s ! j)"
    using pick_stcf_min [OF rq, of s] by blast
  note u = stcf_schedule_unfold [OF cur unfinished rq i(2)]
  have win: "(\<forall>p\<in>set (readyqueue s). remaining s c < remaining s p) \<longrightarrow>
           stcf_schedule s = Inr (Some c, list_del_init c s) \<and>
           (c \<notin> set (readyqueue s) \<longrightarrow> readyqueue (list_del_init c s) = readyqueue s)"
    using u i(1) by (auto simp: list_del_init_fields)
  have lose: "(\<exists>p\<in>set (readyqueue s). remaining s p \<le> remaining s c) \<longrightarrow>
      stcf_schedule s =
        Inr (Some (readyqueue s ! i), list_del_init (readyqueue s ! i) (add_ready c s))"
  proof
    assume "\<exists>p\<in>set (readyqueue s). remaining s p \<le> remaining s c"
    then obtain j where "j < length (readyqueue s)"
        "remaining s (readyqueue s ! j) \<le> remaining s c"
      by (auto simp: in_set_conv_nth)
    then have "remaining s (readyqueue s ! i) \<le> remaining s c"
      using i(3) by (meson order_trans)
    then have "\<not> remaining s c < remaining s (readyqueue s ! i)"
      by (simp add: not_less)
    then show "stcf_schedule s =
        Inr (Some (readyqueue s ! i), list_del_init (readyqueue s ! i) (add_ready c s))"
      using u by simp
  qed
  from win lose i(1,3,4) show ?thesis by blast
qed

theorem stcf_incumbent_strict_witness:
  "remaining stcf_win_input 1 = 2 \<and> remaining stcf_win_input 2 = 3 \<and>
   stcf_schedule stcf_win_input = Inr (Some 1, stcf_win_input) \<and>
   remaining stcf_tie_input 1 = 3 \<and> remaining stcf_tie_input 2 = 3 \<and>
   stcf_schedule stcf_tie_input = Inr (Some 2, list_del_init 2 (add_ready 1 stcf_tie_input))"
  using stcf_incumbent_strict [of stcf_win_input 1] stcf_incumbent_strict [of stcf_tie_input 1]
  by (simp add: stcf_win_input_def stcf_tie_input_def remaining_def list_del_init_def)

text \<open>
  C2 fails as stated. After the events below process 1 runs with 3 ticks left and
  process 2, the only ready process, has 3 ticks left as well. On this tie the incumbent
  does not continue: process 2 is returned and process 1 is put into the ready queue.
\<close>

theorem stcf_tie_preempts:
  "drive_all stcf_scheduler [Fork 1 5 0, Schedule, Run, Schedule, Run, Fork 2 3 0]
     (Idle, boot 1) = Inr (Ran, stcf_tie_input) \<and>
   current stcf_tie_input = Some 1 \<and>
   lifespan (procs stcf_tie_input 1) \<noteq> age (procs stcf_tie_input 1) \<and>
   readyqueue stcf_tie_input = [2] \<and>
   remaining stcf_tie_input 1 \<le> remaining stcf_tie_input 2 \<and>
   stcf_schedule stcf_tie_input = Inr (Some 2, stcf_tie_input\<lparr>readyqueue := [1]\<rparr>)"
  by (simp add: stcf_scheduler_def stcf_schedule_def stcf_better_def remaining_def eval_defs
      stcf_tie_input_def fun_eq_iff)

section \<open>Priority with aging: schedule\<close>

lemma age_queue_fields:
  "current (age_queue mx ps s) = current s"
  "readyqueue (age_queue mx ps s) = readyqueue s"
  "resources (age_queue mx ps s) = resources s"
  "procs (age_queue mx ps s) = (\<lambda>p. if p \<in> set ps then aged mx (procs s p) else procs s p)"
  by (simp_all add: age_queue_def)

lemma age_step:
  "(if prio (procs s p) < mx then set_prio p (prio (procs s p) + 1) s else s) = age_queue mx [p] s"
  by (rule sched.equality) (auto simp: age_queue_fields set_prio_fields aged_def fun_eq_iff)

lemma age_queue_Cons:
  "p \<notin> set ps \<Longrightarrow> age_queue mx ps (age_queue mx [p] s) = age_queue mx (p # ps) s"
  by (rule sched.equality) (auto simp: age_queue_fields fun_eq_iff)

text \<open>On a queue without repetitions the loop ages every entry once and selects as the
  plain maximum loop does on the aged priorities.\<close>

lemma pa_age_pick_eq:
  "distinct ps \<Longrightarrow> (\<forall>n. nxt = Some n \<longrightarrow> n \<notin> set ps) \<Longrightarrow>
   pa_age_pick mx ps s nxt =
     (age_queue mx ps s, pick (prio_better (age_queue mx ps s)) nxt ps)"
proof (induction ps arbitrary: s nxt)
  case Nil
  show ?case by (simp add: age_queue_def)
next
  case (Cons p ps)
  define s1 where "s1 = age_queue mx [p] s"
  define nxt1 where "nxt1 = (case nxt of None \<Rightarrow> Some p
     | Some n \<Rightarrow> if prio (procs s1 n) < prio (procs s1 p) then Some p else Some n)"
  have p: "p \<notin> set ps" and d: "distinct ps" using Cons.prems(1) by simp_all
  have fresh: "\<forall>n. nxt1 = Some n \<longrightarrow> n \<notin> set ps"
    using Cons.prems(2) p by (auto simp: nxt1_def split: option.splits if_splits)
  have unfold: "pa_age_pick mx (p # ps) s nxt = pa_age_pick mx ps s1 nxt1"
    unfolding s1_def nxt1_def by (simp add: age_step Let_def)
  have S: "age_queue mx ps s1 = age_queue mx (p # ps) s"
    using p by (simp add: s1_def age_queue_Cons)
  have same: "nxt1 = (case nxt of None \<Rightarrow> Some p
     | Some n \<Rightarrow> if prio_better (age_queue mx (p # ps) s) p n then Some p else Some n)"
    using Cons.prems(2) p
    by (auto simp: nxt1_def s1_def prio_better_def age_queue_fields split: option.splits)
  have "pa_age_pick mx (p # ps) s nxt = pa_age_pick mx ps s1 nxt1"
    by (rule unfold)
  also have "\<dots> = (age_queue mx ps s1, pick (prio_better (age_queue mx ps s1)) nxt1 ps)"
    by (rule Cons.IH [OF d fresh])
  also have "\<dots> = (age_queue mx (p # ps) s,
      pick (prio_better (age_queue mx (p # ps) s)) nxt (p # ps))"
    by (simp only: S pick.simps same)
  finally show ?case .
qed

lemma pa_schedule_unfold:
  assumes cur: "current s = Some c" and nb: "status (procs s c) \<noteq> PROCESS_BLOCKED"
    and rq: "readyqueue s \<noteq> []" and dist: "distinct (readyqueue s)"
    and s2: "s2 = age_queue mx (readyqueue s) (set_prio c (prio_orig (procs s c)) s)"
    and n: "pick (prio_better s2) None (readyqueue s) = Some n"
  shows "pa_schedule mx s =
     (if age (procs s2 c) < lifespan (procs s2 c) then
        if prio (procs s2 n) < prio (procs s2 c) then Inr (Some c, s2)
        else Inr (Some n, list_del_init n (add_ready c s2))
      else Inr (Some n, list_del_init n s2))"
proof -
  have "pa_age_pick mx (readyqueue s) (set_prio c (prio_orig (procs s c)) s) None = (s2, Some n)"
    using pa_age_pick_eq [OF dist, of None mx "set_prio c (prio_orig (procs s c)) s"] n s2
    by simp
  then show ?thesis
    using cur nb rq by (simp add: pa_schedule_def Let_def set_prio_fields take_next_def)
qed

text \<open>
  C5, as the code has it. Priority-with-aging schedule with a current process \<open>c\<close> that
  is not BLOCKED.

  With an empty ready queue nothing is reset or aged: the state stays as it is, and
  \<open>c\<close> is returned if it is unfinished, no process otherwise.

  With a ready queue that is not empty (and links no process twice, nor \<open>c\<close>), let
  \<open>s2\<close> be the state after the reset and the aging loop: there \<open>c\<close> has its
  original priority, every ready process whose priority was below the maximum has gained
  1, and no other process has changed. The candidate is the first ready process whose
  priority in \<open>s2\<close> is maximal. An unfinished \<open>c\<close> continues, in state \<open>s2\<close>,
  when the candidate's priority is strictly less than its own; otherwise an unfinished
  \<open>c\<close> goes to the tail of the ready queue, and the candidate is unlinked and returned.
\<close>

theorem pa_schedule_ages_ready:
  assumes cur: "current s = Some c" and nb: "status (procs s c) \<noteq> PROCESS_BLOCKED"
    and s2: "s2 = age_queue mx (readyqueue s) (set_prio c (prio_orig (procs s c)) s)"
  shows "(readyqueue s = [] \<longrightarrow>
      pa_schedule mx s =
        Inr (if age (procs s c) < lifespan (procs s c) then Some c else None, s)) \<and>
    (readyqueue s \<noteq> [] \<and> distinct (readyqueue s) \<and> c \<notin> set (readyqueue s) \<longrightarrow>
      prio (procs s2 c) = prio_orig (procs s c) \<and>
      (\<forall>p\<in>set (readyqueue s). prio (procs s2 p) =
          (if prio (procs s p) < mx then prio (procs s p) + 1 else prio (procs s p))) \<and>
      (\<forall>p. p \<noteq> c \<and> p \<notin> set (readyqueue s) \<longrightarrow> procs s2 p = procs s p) \<and>
      (\<exists>i<length (readyqueue s).
         (\<forall>j<length (readyqueue s).
            prio (procs s2 (readyqueue s ! j)) \<le> prio (procs s2 (readyqueue s ! i))) \<and>
         (\<forall>j<i. prio (procs s2 (readyqueue s ! j)) < prio (procs s2 (readyqueue s ! i))) \<and>
         pa_schedule mx s =
           (if age (procs s c) < lifespan (procs s c) then
              if prio (procs s2 (readyqueue s ! i)) < prio (procs s2 c) then Inr (Some c, s2)
              else Inr (Some (readyqueue s ! i),
                        list_del_init (readyqueue s ! i) (add_ready c s2))
            else Inr (Some (readyqueue s ! i), list_del_init (readyqueue s ! i) s2))))"
proof (rule conjI)
  show "readyqueue s = [] \<longrightarrow>
      pa_schedule mx s =
        Inr (if age (procs s c) < lifespan (procs s c) then Some c else None, s)"
    using cur nb by (simp add: pa_schedule_def)
next
  show "readyqueue s \<noteq> [] \<and> distinct (readyqueue s) \<and> c \<notin> set (readyqueue s) \<longrightarrow>
      prio (procs s2 c) = prio_orig (procs s c) \<and>
      (\<forall>p\<in>set (readyqueue s). prio (procs s2 p) =
          (if prio (procs s p) < mx then prio (procs s p) + 1 else prio (procs s p))) \<and>
      (\<forall>p. p \<noteq> c \<and> p \<notin> set (readyqueue s) \<longrightarrow> procs s2 p = procs s p) \<and>
      (\<exists>i<length (readyqueue s).
         (\<forall>j<length (readyqueue s).
            prio (procs s2 (readyqueue s ! j)) \<le> prio (procs s2 (readyqueue s ! i))) \<and>
         (\<forall>j<i. prio (procs s2 (readyqueue s ! j)) < prio (procs s2 (readyqueue s ! i))) \<and>
         pa_schedule mx s =
           (if age (procs s c) < lifespan (procs s c) then
              if prio (procs s2 (readyqueue s ! i)) < prio (procs s2 c) then Inr (Some c, s2)
              else Inr (Some (readyqueue s ! i),
                        list_del_init (readyqueue s ! i) (add_ready c s2))
            else Inr (Some (readyqueue s ! i), list_del_init (readyqueue s ! i) s2)))"
  proof (rule impI, elim conjE)
    assume rq: "readyqueue s \<noteq> []" and dist: "distinct (readyqueue s)"
      and notq: "c \<notin> set (readyqueue s)"
    have a: "prio (procs s2 c) = prio_orig (procs s c)"
      using notq by (simp add: s2 age_queue_fields set_prio_fields)
    have b: "\<forall>p\<in>set (readyqueue s). prio (procs s2 p) =
          (if prio (procs s p) < mx then prio (procs s p) + 1 else prio (procs s p))"
      using notq by (auto simp: s2 age_queue_fields set_prio_fields aged_def)
    have c: "\<forall>p. p \<noteq> c \<and> p \<notin> set (readyqueue s) \<longrightarrow> procs s2 p = procs s p"
      by (simp add: s2 age_queue_fields set_prio_fields)
    have ages: "age (procs s2 c) = age (procs s c)"
        "lifespan (procs s2 c) = lifespan (procs s c)"
      using notq by (simp_all add: s2 age_queue_fields set_prio_fields)
    obtain i where i: "i < length (readyqueue s)"
        "pick (prio_better s2) None (readyqueue s) = Some (readyqueue s ! i)"
        "\<forall>j<length (readyqueue s).
            prio (procs s2 (readyqueue s ! j)) \<le> prio (procs s2 (readyqueue s ! i))"
        "\<forall>j<i. prio (procs s2 (readyqueue s ! j)) < prio (procs s2 (readyqueue s ! i))"
      using pick_prio_max [OF rq, of s2] by blast
    have "pa_schedule mx s =
           (if age (procs s c) < lifespan (procs s c) then
              if prio (procs s2 (readyqueue s ! i)) < prio (procs s2 c) then Inr (Some c, s2)
              else Inr (Some (readyqueue s ! i),
                        list_del_init (readyqueue s ! i) (add_ready c s2))
            else Inr (Some (readyqueue s ! i), list_del_init (readyqueue s ! i) s2))"
      using pa_schedule_unfold [OF cur nb rq dist s2 i(2)] by (simp only: ages)
    with a b c i(1,3,4) show "prio (procs s2 c) = prio_orig (procs s c) \<and>
      (\<forall>p\<in>set (readyqueue s). prio (procs s2 p) =
          (if prio (procs s p) < mx then prio (procs s p) + 1 else prio (procs s p))) \<and>
      (\<forall>p. p \<noteq> c \<and> p \<notin> set (readyqueue s) \<longrightarrow> procs s2 p = procs s p) \<and>
      (\<exists>i<length (readyqueue s).
         (\<forall>j<length (readyqueue s).
            prio (procs s2 (readyqueue s ! j)) \<le> prio (procs s2 (readyqueue s ! i))) \<and>
         (\<forall>j<i. prio (procs s2 (readyqueue s ! j)) < prio (procs s2 (readyqueue s ! i))) \<and>
         pa_schedule mx s =
           (if age (procs s c) < lifespan (procs s c) then
              if prio (procs s2 (readyqueue s ! i)) < prio (procs s2 c) then Inr (Some c, s2)
              else Inr (Some (readyqueue s ! i),
                        list_del_init (readyqueue s ! i) (add_ready c s2))
            else Inr (Some (readyqueue s ! i), list_del_init (readyqueue s ! i) s2)))"
      by blast
  qed
qed

theorem pa_schedule_ages_ready_witness:
  "(\<exists>s'. pa_schedule 64 pa_aging_input = Inr (Some 3, s') \<and>
     prio (procs pa_aging_input 1) = 7 \<and> prio (procs s' 1) = 3 \<and>
     prio (procs pa_aging_input 2) = 2 \<and> prio (procs s' 2) = 3 \<and>
     prio (procs pa_aging_input 3) = 64 \<and> prio (procs s' 3) = 64 \<and>
     readyqueue s' = [2, 1]) \<and>
   readyqueue pa_idle_input = [] \<and>
   pa_schedule 64 pa_idle_input = Inr (Some 1, pa_idle_input)"
proof -
  define s2 where
    "s2 = age_queue 64 (readyqueue pa_aging_input)
            (set_prio 1 (prio_orig (procs pa_aging_input 1)) pa_aging_input)"
  have p: "prio (procs s2 1) = 3" "prio (procs s2 2) = 3" "prio (procs s2 3) = 64"
    by (simp_all add: s2_def pa_aging_input_def age_queue_fields set_prio_fields aged_def)
  have p1: "prio (procs s2 (Suc 0)) = 3"
    using p(1) by simp
  have rq: "readyqueue pa_aging_input = [2, 3]" "readyqueue s2 = [2, 3]"
    by (simp_all add: s2_def pa_aging_input_def age_queue_fields set_prio_fields)
  have cur: "current pa_aging_input = Some 1"
    and nb: "status (procs pa_aging_input 1) \<noteq> PROCESS_BLOCKED"
    by (simp_all add: pa_aging_input_def)
  have q: "readyqueue pa_aging_input \<noteq> [] \<and> distinct (readyqueue pa_aging_input) \<and>
      1 \<notin> set (readyqueue pa_aging_input)"
    by (simp add: pa_aging_input_def)
  from pa_schedule_ages_ready [OF cur nb s2_def, THEN conjunct2, THEN mp, OF q, unfolded rq]
  obtain i where i: "i < length [2, 3::nat]"
      "\<forall>j<length [2, 3::nat]. prio (procs s2 ([2, 3] ! j)) \<le> prio (procs s2 ([2, 3] ! i))"
      "pa_schedule 64 pa_aging_input =
         (if age (procs pa_aging_input 1) < lifespan (procs pa_aging_input 1) then
            if prio (procs s2 ([2, 3] ! i)) < prio (procs s2 1) then Inr (Some 1, s2)
            else Inr (Some ([2, 3] ! i), list_del_init ([2, 3] ! i) (add_ready 1 s2))
          else Inr (Some ([2, 3] ! i), list_del_init ([2, 3] ! i) s2))"
    by blast
  have "i = 1"
  proof (rule ccontr)
    assume "i \<noteq> 1"
    then have "i = 0" using i(1) by simp
    then have "prio (procs s2 ([2, 3] ! 1)) \<le> prio (procs s2 ([2, 3] ! 0))"
      using i(2) [rule_format, of 1] by simp
    then have "prio (procs s2 3) \<le> prio (procs s2 2)" by simp
    then show False unfolding p by simp
  qed
  then have sel: "[2, 3::nat] ! i = 3" by simp
  have unfinished: "age (procs pa_aging_input 1) < lifespan (procs pa_aging_input 1)"
    by (simp add: pa_aging_input_def)
  have cmp: "\<not> prio (procs s2 3) < prio (procs s2 1)"
    unfolding p by simp
  have "pa_schedule 64 pa_aging_input = Inr (Some 3, list_del_init 3 (add_ready 1 s2))"
    using i(3) by (simp only: sel unfinished cmp if_True if_False)
  moreover have "prio (procs (list_del_init 3 (add_ready 1 s2)) 1) = 3"
      "prio (procs (list_del_init 3 (add_ready 1 s2)) 2) = 3"
      "prio (procs (list_del_init 3 (add_ready 1 s2)) 3) = 64"
      "readyqueue (list_del_init 3 (add_ready 1 s2)) = [2, 1]"
    by (simp_all add: fields p p1 rq)
  ultimately have first: "\<exists>s'. pa_schedule 64 pa_aging_input = Inr (Some 3, s') \<and>
     prio (procs pa_aging_input 1) = 7 \<and> prio (procs s' 1) = 3 \<and>
     prio (procs pa_aging_input 2) = 2 \<and> prio (procs s' 2) = 3 \<and>
     prio (procs pa_aging_input 3) = 64 \<and> prio (procs s' 3) = 64 \<and>
     readyqueue s' = [2, 1]"
    by (simp add: pa_aging_input_def)
  have icur: "current pa_idle_input = Some 1"
    and inb: "status (procs pa_idle_input 1) \<noteq> PROCESS_BLOCKED"
    and irq: "readyqueue pa_idle_input = []"
    and iun: "age (procs pa_idle_input 1) < lifespan (procs pa_idle_input 1)"
    by (simp_all add: pa_idle_input_def)
  have "pa_schedule 64 pa_idle_input =
      Inr (if age (procs pa_idle_input 1) < lifespan (procs pa_idle_input 1) then Some 1
           else None, pa_idle_input)"
    by (rule pa_schedule_ages_ready [OF icur inb refl, THEN conjunct1, THEN mp, OF irq])
  then have second: "pa_schedule 64 pa_idle_input = Inr (Some 1, pa_idle_input)"
    by (simp only: iun if_True)
  from first irq second show ?thesis by (intro conjI)
qed

text \<open>
  C5 fails as stated. After the events below process 1 runs, is not BLOCKED, and has the
  aged priority 4 over its original 3, while the ready queue is empty. Schedule returns
  it and changes nothing: its priority is not reset.
\<close>

theorem pa_schedule_idle_keeps_prio:
  "drive_all (pa_scheduler 64) [Fork 2 1 9, Schedule, Fork 1 3 3, Run, Schedule, Run]
     (Idle, boot 1) = Inr (Ran, pa_idle_input) \<and>
   current pa_idle_input = Some 1 \<and>
   status (procs pa_idle_input 1) \<noteq> PROCESS_BLOCKED \<and>
   prio (procs pa_idle_input 1) = 4 \<and> prio_orig (procs pa_idle_input 1) = 3 \<and>
   pa_schedule 64 pa_idle_input = Inr (Some 1, pa_idle_input)"
  by (simp add: pa_scheduler_def pa_schedule_def pa_pick_next_def prio_better_def eval_defs
      pa_idle_input_def fun_eq_iff)

section \<open>Priority with aging: release\<close>

text \<open>
  C1, at a failing input. After the events below process 1 runs and owns resource 0, and
  it is the one waiter in the wait queue of resource 0: it asked for the resource a second
  time, and \<^verbatim>\<open>pa_acquire\<close> put the owner, which was in no queue, into the wait queue
  with status BLOCKED. Process 3 waits in the ready queue, and no process is linked twice.
  \<^verbatim>\<open>pa_release\<close> runs its selection loop over the ready queue: it selects process 3,
  whose status is READY, and stops at the assertion with only the ownership cleared;
  process 1 is not woken. \<^verbatim>\<open>prio_release\<close> in the same state selects from the wait
  queue and wakes process 1.
\<close>

theorem pa_release_scans_readyqueue:
  "drive_all (pa_scheduler 64) [Fork 1 3 1, Schedule, Acquire 0, Acquire 0, Fork 3 3 2]
     (Idle, boot 1) = Inr (Dispatched, pa_release_input) \<and>
   exclusive pa_release_input \<and>
   current pa_release_input = Some 1 \<and>
   owner (resources pa_release_input ! 0) = Some 1 \<and>
   waitqueue (resources pa_release_input ! 0) = [1] \<and>
   status (procs pa_release_input 1) = PROCESS_BLOCKED \<and>
   readyqueue pa_release_input = [3] \<and>
   status (procs pa_release_input 3) = PROCESS_READY \<and>
   pa_release 0 pa_release_input =
     Inl (AssertFailed, pa_release_input\<lparr>resources := [\<lparr>owner = None, waitqueue = [1]\<rparr>]\<rparr>) \<and>
   prio_release 0 pa_release_input =
     Inr ((), pa_release_input
        \<lparr>readyqueue := [3, 1], resources := [\<lparr>owner = None, waitqueue = []\<rparr>],
         procs := (procs pa_release_input)
           (1 := (procs pa_release_input 1)\<lparr>status := PROCESS_READY\<rparr>)\<rparr>)"
  by (simp add: pa_scheduler_def pa_schedule_def pa_pick_next_def pa_acquire_def pa_release_def
      prio_release_def wake_def prio_better_def eval_defs pa_release_input_def exclusive_def
      fun_eq_iff)

section \<open>Queue membership\<close>

text \<open>
  C3, at a failing input. After the events below process 1 owns resource 0 and is linked
  into the ready queue, process 2 runs, and no process is linked twice. Process 2 asks for
  resource 0: \<^verbatim>\<open>pa_acquire\<close> takes the resource from process 1 and appends process 1
  to the wait queue without unlinking it, so process 1 is in the ready queue and in the
  wait queue of resource 0 at once.
\<close>

theorem pa_acquire_links_owner_twice:
  "drive_all (pa_scheduler 64) [Fork 1 3 1, Schedule, Acquire 0, Run, Fork 2 3 9, Schedule]
     (Idle, boot 1) = Inr (Dispatched, pa_evict_input) \<and>
   exclusive pa_evict_input \<and>
   pa_acquire 0 pa_evict_input =
     Inr (True, pa_evict_input
        \<lparr>resources := [\<lparr>owner = Some 2, waitqueue = [1]\<rparr>],
         procs := (procs pa_evict_input)
           (1 := (procs pa_evict_input 1)\<lparr>status := PROCESS_BLOCKED\<rparr>)\<rparr>) \<and>
   readyqueue pa_evict_input = [1] \<and>
   \<not> exclusive (pa_evict_input
        \<lparr>resources := [\<lparr>owner = Some 2, waitqueue = [1]\<rparr>],
         procs := (procs pa_evict_input)
           (1 := (procs pa_evict_input 1)\<lparr>status := PROCESS_BLOCKED\<rparr>)\<rparr>)"
  by (simp add: pa_scheduler_def pa_schedule_def pa_pick_next_def pa_acquire_def
      prio_better_def eval_defs pa_evict_input_def exclusive_def queued_def fun_eq_iff)

section \<open>Schedule after the current process blocked\<close>

text \<open>
  C4, at a failing input. After the events below, under STCF and under round-robin alike,
  process 2 has just blocked on resource 0 (status BLOCKED, linked into its wait queue)
  and process 1, the owner, is ready. \<^verbatim>\<open>stcf_schedule\<close> returns process 2, the BLOCKED
  one, since it has the shorter remaining time, and unlinks it from the wait queue.
  \<^verbatim>\<open>rr_schedule\<close> returns process 1 and appends the BLOCKED process 2 to the ready
  queue, while it stays in the wait queue.
\<close>

theorem schedule_mishandles_blocked_current:
  "drive_all stcf_scheduler
     [Fork 1 5 0, Schedule, Acquire 0, Run, Fork 2 2 0, Schedule, Acquire 0] (Idle, boot 1)
     = Inr (Idle, blocked_input) \<and>
   drive_all rr_scheduler
     [Fork 1 5 0, Schedule, Acquire 0, Run, Fork 2 2 0, Schedule, Acquire 0] (Idle, boot 1)
     = Inr (Idle, blocked_input) \<and>
   current blocked_input = Some 2 \<and>
   status (procs blocked_input 2) = PROCESS_BLOCKED \<and>
   waitqueue (resources blocked_input ! 0) = [2] \<and>
   stcf_schedule blocked_input =
     Inr (Some 2, blocked_input\<lparr>resources := [\<lparr>owner = Some 1, waitqueue = []\<rparr>]\<rparr>) \<and>
   rr_schedule blocked_input = Inr (Some 1, blocked_input\<lparr>readyqueue := [2]\<rparr>)"
  by (simp add: stcf_scheduler_def rr_scheduler_def stcf_schedule_def rr_schedule_def
      stcf_better_def remaining_def fcfs_acquire_def eval_defs blocked_input_def fun_eq_iff)

section \<open>Release by a process that is not the owner\<close>

text \<open>The releases that assert first leave the state as it was.\<close>

lemma release_asserts_first:
  assumes "rid < length (resources s)" and "owner (resources s ! rid) \<noteq> current s"
  shows "fcfs_release rid s = Inl (AssertFailed, s)"
    and "prio_release rid s = Inl (AssertFailed, s)"
    and "pa_release rid s = Inl (AssertFailed, s)"
    and "pip_release rid s = Inl (AssertFailed, s)"
  using assms
  by (simp_all add: fcfs_release_def prio_release_def pa_release_def pip_release_def)

text \<open>
  C10, at a failing input. After the events below process 1 owns resource 0 with the
  ceiling priority 64 over its original 1, and process 2 runs. A release of resource 0 by
  process 2 fails the owner assertion in both protocols; \<^verbatim>\<open>pip_release\<close> leaves the
  state as it was, \<^verbatim>\<open>pcp_release\<close> has already set the priority of process 1 to 1.
\<close>

theorem pcp_release_writes_before_assert:
  "drive_all (pcp_scheduler 64) [Fork 1 3 1, Schedule, Acquire 0, Run, Fork 2 3 64, Schedule]
     (Idle, boot 1) = Inr (Dispatched, pcp_release_input) \<and>
   current pcp_release_input = Some 2 \<and>
   owner (resources pcp_release_input ! 0) = Some 1 \<and>
   prio (procs pcp_release_input 1) = 64 \<and>
   pcp_release 0 pcp_release_input =
     Inl (AssertFailed, pcp_release_input
        \<lparr>procs := (procs pcp_release_input)
           (1 := (procs pcp_release_input 1)\<lparr>prio := 1\<rparr>)\<rparr>) \<and>
   pip_release 0 pcp_release_input = Inl (AssertFailed, pcp_release_input)"
  by (simp add: pcp_scheduler_def pcp_schedule_def pcp_acquire_def pcp_release_def
      pip_release_def prio_better_def eval_defs pcp_release_input_def fun_eq_iff)

section \<open>Completed processes\<close>


end
